theory Spec2Isabelle
  imports Main
begin

section \<open>Placeholder icon generator: \<open>extension/create_simple_icons.py\<close>\<close>

text \<open>
  The script draws the letter L on a square canvas and saves it three times (16, 48 and
  128 pixels).  Everything it does goes through the imaging library, the file system and
  the standard output.  The script's own control flow and arithmetic are translated line by
  line; the library primitives it calls are modelled by small definitions that keep what
  the script relies on, and whatever depends on the machine (which fonts load, which
  writes fail, how an image is encoded, how an anti-aliased pixel is mixed) is a field of
  the environment record \<open>env\<close>.  The library keeps the size of an image in 32-bit C
  integers, so an edge length of \<open>2^31\<close> or more is refused; below that limit running out
  of memory is not modelled.  The built-in default font always loads, and measuring or
  drawing the glyph never raises.
\<close>

subsection \<open>Values, errors and the outside world\<close>

datatype error = TypeError | ValueError | OverflowError | OSError | OtherError string

text \<open>The \<open>size\<close> argument is an untyped Python value.\<close>

datatype pyval = PInt int | PStr string | PNone

type_synonym rgb = "nat \<times> nat \<times> nat"

type_synonym bytes = "nat list"

record image =
  width :: nat
  height :: nat
  rows :: "rgb list list"

text \<open>
  A font, as far as the single glyph L is concerned: the bounding box
  \<open>(left, top, right, bottom)\<close> that \<open>textbbox((0, 0), "L", font)\<close> reports, and the
  coverage (0 to 255) of each cell of the glyph's mask, indexed by column and row from the
  top-left corner of that box.
\<close>

record font =
  bbox :: "int \<times> int \<times> int \<times> int"
  coverage :: "nat \<Rightarrow> nat \<Rightarrow> nat"

record env =
  truetype :: "string \<Rightarrow> int \<Rightarrow> error + font"
  load_default :: font
  mix :: "nat \<Rightarrow> rgb \<Rightarrow> rgb \<Rightarrow> rgb"
  encode_png :: "image \<Rightarrow> bytes"
  mkdir_error :: "string \<Rightarrow> error option"
  write_error :: "string \<Rightarrow> image \<Rightarrow> error option"
  write_residue :: "string \<Rightarrow> bytes option \<Rightarrow> bytes option"

record world =
  files :: "string \<rightharpoonup> bytes"
  dirs :: "string set"
  stdout :: "string list"

text \<open>
  A statement either returns normally (\<open>None\<close>) or raises (\<open>Some e\<close>); in both cases it
  leaves a world behind, since an exception does not undo what was already written.
\<close>

type_synonym stmt = "world \<Rightarrow> error option \<times> world"

definition seq :: "stmt \<Rightarrow> stmt \<Rightarrow> stmt" where
  "seq s1 s2 w = (case s1 w of (Some e, w1) \<Rightarrow> (Some e, w1) | (None, w1) \<Rightarrow> s2 w1)"

definition print :: "string \<Rightarrow> stmt" where
  "print line w = (None, w\<lparr>stdout := stdout w @ [line]\<rparr>)"

definition font_path :: string where
  "font_path = ''/System/Library/Fonts/Arial.ttf''"

definition icons_dir :: string where
  "icons_dir = ''/Users/maciejorlowski/lumos/extension/icons''"

definition background :: rgb where
  "background = (0x66, 0x7e, 0xea)"

definition white :: rgb where
  "white = (255, 255, 255)"

subsection \<open>\<open>int(size * 0.6)\<close> in double precision\<close>

text \<open>
  \<open>size * 0.6\<close> converts \<open>size\<close> to a double, multiplies by the double nearest to 0.6 and
  rounds the product to 53 significant bits; \<open>int\<close> then truncates toward zero.  The double
  nearest to 0.6 is \<open>5404319552844595 / 2^53\<close>, so every value involved is an integer
  divided by \<open>2^53\<close> and the computation is carried out on the numerators.
\<close>

fun bit_length :: "nat \<Rightarrow> nat" where
  "bit_length n = (if n = 0 then 0 else Suc (bit_length (n div 2)))"

declare bit_length.simps [simp del]

text \<open>Round a natural number to 53 significant bits, ties to even.\<close>

definition round53 :: "nat \<Rightarrow> nat" where
  "round53 m =
     (let l = bit_length m in
      if l \<le> 53 then m
      else let s = l - 53; q = m div 2 ^ s; r = m mod 2 ^ s in
        (if 2 ^ (s - 1) < r \<or> (r = 2 ^ (s - 1) \<and> odd q) then q + 1 else q) * 2 ^ s)"

definition mantissa_0_6 :: nat where
  "mantissa_0_6 = 5404319552844595"

text \<open>\<open>float(n)\<close>: the nearest double, or OverflowError beyond the largest double.\<close>

definition float_of_int :: "int \<Rightarrow> error + int" where
  "float_of_int n =
     (let f = round53 (nat \<bar>n\<bar>) in
      if 2 ^ 1024 \<le> f then Inl OverflowError else Inr (sgn n * int f))"

text \<open>The product of an integer-valued double with 0.6, as a numerator over \<open>2^53\<close>.\<close>

definition times_0_6 :: "int \<Rightarrow> int" where
  "times_0_6 f = sgn f * int (round53 (nat \<bar>f\<bar> * mantissa_0_6))"

text \<open>\<open>int(x)\<close> for a double \<open>x = v / 2^53\<close>: truncation toward zero.\<close>

definition int_of_float :: "int \<Rightarrow> int" where
  "int_of_float v = sgn v * (\<bar>v\<bar> div 2 ^ 53)"

fun font_size_of :: "pyval \<Rightarrow> error + int" where
  "font_size_of (PInt n) =
     (case float_of_int n of Inl e \<Rightarrow> Inl e | Inr f \<Rightarrow> Inr (int_of_float (times_0_6 f)))"
| "font_size_of (PStr s) = Inl TypeError"
| "font_size_of PNone = Inl TypeError"

subsection \<open>The library primitives\<close>

text \<open>
  \<open>Image.new('RGB', (size, size), '#667eea')\<close>: the library rejects a size that is not an
  integer (TypeError), is negative (ValueError) or does not fit a 32-bit C integer
  (OverflowError), and otherwise returns a canvas filled with the colour.
\<close>

fun new_image :: "pyval \<Rightarrow> rgb \<Rightarrow> error + image" where
  "new_image (PInt n) c =
     (if n < 0 then Inl ValueError
      else if 2 ^ 31 \<le> n then Inl OverflowError
      else Inr \<lparr>width = nat n, height = nat n, rows = replicate (nat n) (replicate (nat n) c)\<rparr>)"
| "new_image (PStr s) c = Inl TypeError"
| "new_image PNone c = Inl TypeError"

definition getpixel :: "image \<Rightarrow> nat \<Rightarrow> nat \<Rightarrow> rgb option" where
  "getpixel img i j =
     (if i < width img \<and> j < height img then Some (rows img ! j ! i) else None)"

text \<open>\<open>draw.textbbox(xy, "L", font)\<close>: the font's box moved to the anchor.\<close>

fun textbbox :: "int \<times> int \<Rightarrow> font \<Rightarrow> int \<times> int \<times> int \<times> int" where
  "textbbox (x, y) f = (case bbox f of (l, t, r, b) \<Rightarrow> (x + l, y + t, x + r, y + b))"

text \<open>
  One pixel under a mask cell: untouched where the coverage is zero, the ink where it is
  full, and the library's mixture of the two in between.
\<close>

definition paint :: "env \<Rightarrow> nat \<Rightarrow> rgb \<Rightarrow> rgb \<Rightarrow> rgb" where
  "paint e c old ink = (if c = 0 then old else if 255 \<le> c then ink else mix e c old ink)"

text \<open>Whether the pixel in column \<open>i\<close> and row \<open>j\<close> lies in a box.\<close>

fun inside :: "int \<times> int \<times> int \<times> int \<Rightarrow> nat \<Rightarrow> nat \<Rightarrow> bool" where
  "inside (l, t, r, b) i j \<longleftrightarrow> l \<le> int i \<and> int i < r \<and> t \<le> int j \<and> int j < b"

text \<open>
  \<open>draw.text(xy, "L", fill, font)\<close>: the glyph's mask is laid over the box
  \<open>textbbox xy font\<close> and clipped to the canvas; no pixel outside the box changes, and a
  box that leaves the canvas is not an error.
\<close>

definition draw_text :: "env \<Rightarrow> image \<Rightarrow> int \<times> int \<Rightarrow> font \<Rightarrow> rgb \<Rightarrow> image" where
  "draw_text e img xy f ink =
     (case textbbox xy f of (l, t, r, b) \<Rightarrow>
        img\<lparr>rows :=
          map (\<lambda>j. map (\<lambda>i.
                 if inside (l, t, r, b) i j
                 then paint e (coverage f (nat (int i - l)) (nat (int j - t))) (rows img ! j ! i) ink
                 else rows img ! j ! i) [0..<width img]) [0..<height img]\<rparr>)"

text \<open>\<open>size - n\<close> for an integer \<open>n\<close>.\<close>

fun py_sub :: "pyval \<Rightarrow> int \<Rightarrow> error + int" where
  "py_sub (PInt a) b = Inr (a - b)"
| "py_sub (PStr s) b = Inl TypeError"
| "py_sub PNone b = Inl TypeError"

text \<open>\<open>os.makedirs(path, exist_ok=True)\<close>; intermediate directories are not tracked.\<close>

definition makedirs :: "env \<Rightarrow> string \<Rightarrow> stmt" where
  "makedirs e path w =
     (case mkdir_error e path of
        Some err \<Rightarrow> (Some err, w)
      | None \<Rightarrow> (None, w\<lparr>dirs := insert path (dirs w)\<rparr>))"

text \<open>
  \<open>img.save(path)\<close>: whether the save fails depends on the path and on the picture.  A
  successful save replaces whatever was at the path; a failed one raises and leaves at
  the path what the environment says (nothing, the old file or a truncated one).
\<close>

definition save :: "env \<Rightarrow> image \<Rightarrow> string \<Rightarrow> stmt" where
  "save e img path w =
     (case write_error e path img of
        Some err \<Rightarrow> (Some err, w\<lparr>files := (files w)(path := write_residue e path (files w path))\<rparr>)
      | None \<Rightarrow> (None, w\<lparr>files := (files w)(path \<mapsto> encode_png e img)\<rparr>))"

subsection \<open>\<open>create_icon\<close> and the script\<close>

text \<open>Lines 11 to 13: the body of the \<open>try\<close>.\<close>

definition try_body :: "env \<Rightarrow> pyval \<Rightarrow> error + font" where
  "try_body e sz =
     (case font_size_of sz of
        Inl err \<Rightarrow> Inl err
      | Inr font_size \<Rightarrow> truetype e font_path font_size)"

text \<open>Lines 11 to 15: the bare \<open>except\<close> catches everything.\<close>

definition select_font :: "env \<Rightarrow> pyval \<Rightarrow> font" where
  "select_font e sz = (case try_body e sz of Inl err \<Rightarrow> load_default e | Inr f \<Rightarrow> f)"

text \<open>Lines 18 to 24: measure the glyph and compute where to put it.\<close>

definition text_anchor :: "pyval \<Rightarrow> font \<Rightarrow> error + int \<times> int" where
  "text_anchor sz f =
     (case textbbox (0, 0) f of (b0, b1, b2, b3) \<Rightarrow>
        let text_width = b2 - b0; text_height = b3 - b1 in
        (case py_sub sz text_width of
           Inl err \<Rightarrow> Inl err
         | Inr dx \<Rightarrow>
             (case py_sub sz text_height of
                Inl err \<Rightarrow> Inl err
              | Inr dy \<Rightarrow> Inr (dx div 2, dy div 2))))"

text \<open>Lines 7 to 26: the picture, or the exception that stopped it.\<close>

definition render :: "env \<Rightarrow> pyval \<Rightarrow> error + image" where
  "render e sz =
     (case new_image sz background of
        Inl err \<Rightarrow> Inl err
      | Inr img \<Rightarrow>
          let f = select_font e sz in
          (case text_anchor sz f of
             Inl err \<Rightarrow> Inl err
           | Inr xy \<Rightarrow> Inr (draw_text e img xy f white)))"

text \<open>Line 29: the f-string that names the output file.\<close>

definition icon_path :: "string \<Rightarrow> string" where
  "icon_path filename = icons_dir @ ''/'' @ filename"

definition create_icon :: "env \<Rightarrow> pyval \<Rightarrow> string \<Rightarrow> stmt" where
  "create_icon e sz filename w =
     (case render e sz of
        Inl err \<Rightarrow> (Some err, w)
      | Inr img \<Rightarrow>
          seq (save e img (icon_path filename))
              (print (''Created '' @ filename)) w)"

definition main :: "env \<Rightarrow> stmt" where
  "main e =
     seq (makedirs e icons_dir)
    (seq (create_icon e (PInt 16) ''icon16.png'')
    (seq (create_icon e (PInt 48) ''icon48.png'')
    (seq (create_icon e (PInt 128) ''icon128.png'')
         (print ''All icons created successfully!''))))"


subsection \<open>What the specification says about the font size\<close>

text \<open>
  The specification's words, not the code: 60 per cent of the edge length, rounded to the
  nearest integer.  Three fifths of an integer is never halfway between two integers, so
  the nearest integer is \<open>\<lfloor>3n/5 + 1/2\<rfloor>\<close>.
\<close>

definition rounded_60_percent :: "int \<Rightarrow> int" where
  "rounded_60_percent n = (6 * n + 5) div 10"

subsection \<open>Sample environments\<close>

text \<open>A small glyph: a full left column, a half-covered foot, three columns by five rows.\<close>

definition sample_font :: font where
  "sample_font =
     \<lparr>bbox = (1, 2, 4, 7),
      coverage = (\<lambda>c r. if c = 0 then 255 else if r = 4 then 128 else 0)\<rparr>"

definition sample_mix :: "nat \<Rightarrow> rgb \<Rightarrow> rgb \<Rightarrow> rgb" where
  "sample_mix c old ink =
     (case (old, ink) of ((r, g, b), (r', g', b')) \<Rightarrow>
        ((r * (255 - c) + r' * c) div 255,
         (g * (255 - c) + g' * c) div 255,
         (b * (255 - c) + b' * c) div 255))"

definition sample_encode :: "image \<Rightarrow> bytes" where
  "sample_encode img =
     width img # height img # concat (map (\<lambda>(r, g, b). [r, g, b]) (concat (rows img)))"

text \<open>A machine without the font file (the path is a macOS one) where every write works.\<close>

definition sample_env :: env where
  "sample_env =
     \<lparr>truetype = (\<lambda>path font_size. Inl OSError),
      load_default = sample_font,
      mix = sample_mix,
      encode_png = sample_encode,
      mkdir_error = (\<lambda>path. None),
      write_error = (\<lambda>path img. None),
      write_residue = (\<lambda>path old. old)\<rparr>"

text \<open>A machine with the font file: the glyph's box grows with the requested size.\<close>

definition arial_env :: env where
  "arial_env =
     sample_env\<lparr>truetype := (\<lambda>path font_size.
        if path = font_path \<and> 0 < font_size
        then Inr \<lparr>bbox = (1, font_size div 4, 1 + font_size div 2, font_size),
                  coverage = (\<lambda>c r. 255)\<rparr>
        else Inl OSError)\<rparr>"

text \<open>Machines where one of the three writes fails and leaves nothing behind.\<close>

definition failing_env :: "string \<Rightarrow> env" where
  "failing_env name =
     sample_env\<lparr>write_error := (\<lambda>path img. if path = icon_path name then Some OSError else None),
                write_residue := (\<lambda>path old. None)\<rparr>"

definition empty_world :: world where
  "empty_world = \<lparr>files = Map.empty, dirs = {}, stdout = []\<rparr>"

subsection \<open>Auxiliary definition for the rounding proofs\<close>

text \<open>Rounding to a multiple of \<open>P\<close>, upward beyond the threshold \<open>H\<close>, ties to even.\<close>

definition rnd :: "nat \<Rightarrow> nat \<Rightarrow> nat \<Rightarrow> nat" where
  "rnd P H m =
     (if H < m mod P \<or> (m mod P = H \<and> odd (m div P)) then m div P + 1 else m div P) * P"

section \<open>The font size\<close>

lemma bit_length_le_iff: "bit_length n \<le> k \<longleftrightarrow> n < 2 ^ k"
proof (induction n arbitrary: k rule: bit_length.induct)
  case (1 n)
  show ?case
  proof (cases "n = 0")
    case True
    then show ?thesis by (simp add: bit_length.simps)
  next
    case False
    show ?thesis
    proof (cases k)
      case 0
      with False show ?thesis by (simp add: bit_length.simps [of n])
    next
      case (Suc k')
      have "bit_length n \<le> Suc k' \<longleftrightarrow> bit_length (n div 2) \<le> k'"
        using False by (simp add: bit_length.simps [of n])
      also have "\<dots> \<longleftrightarrow> n div 2 < 2 ^ k'"
        using "1.IH" [OF False] .
      also have "\<dots> \<longleftrightarrow> n < 2 ^ Suc k'"
        by auto
      finally show ?thesis using Suc by simp
    qed
  qed
qed

lemma bit_length_upper: "n < 2 ^ bit_length n"
  using bit_length_le_iff [of n "bit_length n"] by simp

lemma bit_length_lower: "2 ^ k \<le> n \<Longrightarrow> k < bit_length n"
  using bit_length_le_iff [of n k] by simp

lemma round53_rnd: "round53 m = rnd (2 ^ (bit_length m - 53)) (2 ^ (bit_length m - 53 - 1)) m"
  by (simp add: round53_def rnd_def Let_def)

lemma rnd_ge: assumes "0 < P" "a * P \<le> m" shows "a * P \<le> rnd P H m"
proof -
  have "a \<le> m div P" using assms by (simp add: less_eq_div_iff_mult_less_eq)
  then have "a * P \<le> (m div P) * P" by simp
  also have "\<dots> \<le> rnd P H m" by (simp add: rnd_def)
  finally show ?thesis .
qed

lemma rnd_le: assumes "0 < P" "0 < H" "m \<le> a * P" shows "rnd P H m \<le> a * P"
proof (cases "m mod P = 0")
  case True
  then have "rnd P H m = (m div P) * P" using assms by (simp add: rnd_def)
  also have "\<dots> \<le> m" by simp
  finally show ?thesis using assms by simp
next
  case False
  have "(m div P) * P < m" using False
    by (metis div_mult_mod_eq less_add_same_cancel1 neq0_conv)
  then have "(m div P) * P < a * P" using assms by linarith
  then have "m div P < a" using mult_less_cancel2 [of "m div P" P a] by simp
  then have "m div P + 1 \<le> a" by simp
  then have "(m div P + 1) * P \<le> a * P" using mult_le_mono1 by blast
  moreover have "rnd P H m \<le> (m div P + 1) * P" by (simp add: rnd_def)
  ultimately show ?thesis by simp
qed

lemma rnd_upper: assumes "0 < P" "H \<le> P" shows "rnd P H m + H \<le> m + P"
proof -
  have m: "m = (m div P) * P + m mod P" by simp
  show ?thesis
  proof (cases "H < m mod P \<or> (m mod P = H \<and> odd (m div P))")
    case True
    then have "rnd P H m = (m div P) * P + P" by (auto simp add: rnd_def)
    moreover have "H \<le> m mod P" using True by auto
    ultimately show ?thesis using m by linarith
  next
    case False
    then have "rnd P H m = (m div P) * P" by (auto simp add: rnd_def)
    then show ?thesis using m assms by linarith
  qed
qed

lemma rnd_lower: assumes "0 < P" shows "m \<le> rnd P H m + H"
proof -
  have m: "m = (m div P) * P + m mod P" by simp
  show ?thesis
  proof (cases "H < m mod P \<or> (m mod P = H \<and> odd (m div P))")
    case True
    then have "rnd P H m = (m div P) * P + P" by (auto simp add: rnd_def)
    moreover have "m mod P < P" using assms by simp
    ultimately show ?thesis using m by linarith
  next
    case False
    then have "rnd P H m = (m div P) * P" "m mod P \<le> H" by (auto simp add: rnd_def)
    then show ?thesis using m by linarith
  qed
qed

lemma rnd_multiple: "\<exists>c. rnd P H m = c * P"
  by (simp add: rnd_def)


lemma round53_times_0_6:
  assumes "n < 2 ^ 51"
  shows "round53 (n * mantissa_0_6) div 2 ^ 53 = 3 * n div 5"
proof -
  define m where "m = n * mantissa_0_6"
  define s where "s = bit_length m - 53"
  define P :: nat where "P = 2 ^ s"
  define H :: nat where "H = 2 ^ (s - 1)"
  define K where "K = 3 * n div 5"
  define j where "j = 3 * n mod 5"
  define R where "R = round53 m"
  define T :: nat where "T = 9007199254740992"
  have T: "(2::nat) ^ 53 = T" by (simp add: T_def)
  have R: "R = rnd P H m"
    by (simp add: R_def P_def H_def s_def round53_rnd)
  have key: "5 * m + n = 3 * n * T"
    by (simp add: m_def mantissa_0_6_def T_def)
  have split: "3 * n = 5 * K + j" and j: "j < 5"
    by (simp_all add: K_def j_def)
  have n: "n < 2251799813685248" using assms by simp
  have "m < 2251799813685248 * 9007199254740992"
    using n by (simp add: m_def mantissa_0_6_def)
  also have "\<dots> = 2 ^ 104" by simp
  finally have "bit_length m \<le> 104" by (simp add: bit_length_le_iff)
  then have s: "s \<le> 51" by (simp add: s_def)
  have Ppos: "0 < P" and Hpos: "0 < H" by (simp_all add: P_def H_def)
  have PH: "H \<le> P \<and> P \<le> H + 1125899906842624 \<and> (s \<noteq> 0 \<longrightarrow> P = 2 * H)"
  proof (cases s)
    case 0
    then show ?thesis by (simp add: P_def H_def)
  next
    case (Suc s')
    then have "s' \<le> 50" using s by simp
    then have "(2::nat) ^ s' \<le> 2 ^ 50" by (rule power_increasing) simp
    then show ?thesis using Suc by (simp add: P_def H_def)
  qed
  define a where "a = K * 2 ^ (53 - s)"
  define b where "b = (K + 1) * 2 ^ (53 - s)"
  have "(2::nat) ^ (53 - s) * 2 ^ s = 2 ^ 53"
    using s by (simp flip: power_add)
  then have PT: "2 ^ (53 - s) * P = T" unfolding P_def T_def by simp
  have aP: "a * P = K * T" and bP: "b * P = K * T + T"
    using PT by (simp_all add: a_def b_def mult.assoc add_mult_distrib)
  have upper: "R < K * T + T"
  proof (cases "j = 0")
    case True
    then have "m \<le> a * P" using key split aP unfolding T_def by linarith
    then have "R \<le> a * P" unfolding R using Ppos Hpos by (intro rnd_le)
    then show ?thesis using aP unfolding T_def by linarith
  next
    case False
    have "R + H \<le> m + P" unfolding R using Ppos PH by (intro rnd_upper) auto
    then show ?thesis using key split j False PH n unfolding T_def by linarith
  qed
  have lower: "K * T \<le> R"
  proof (cases "j = 0 \<and> 0 < n")
    case False
    then have "j \<noteq> 0 \<or> n = 0" by auto
    then have "a * P \<le> m" using key split j n aP unfolding T_def by linarith
    then have "a * P \<le> R" unfolding R using Ppos by (intro rnd_ge)
    then show ?thesis using aP by simp
  next
    case True
    have "2 ^ 52 \<le> m" using True by (simp add: m_def mantissa_0_6_def)
    then have "52 < bit_length m" by (rule bit_length_lower)
    then have "bit_length m = s + 53" by (simp add: s_def)
    then have "m < P * 9007199254740992" using bit_length_upper [of m] by (simp add: P_def power_add)
    then have P3: "3 * n \<le> 5 * P" using key n unfolding T_def by linarith
    moreover have "2 \<le> n" using True split by presburger
    ultimately have "P \<noteq> 1" by linarith
    then have "s \<noteq> 0" by (auto simp add: P_def)
    then have P2: "P = 2 * H" using PH by simp
    have low: "m \<le> R + H" unfolding R using Ppos by (intro rnd_lower)
    show ?thesis
    proof (rule ccontr)
      assume "\<not> K * T \<le> R"
      then have lt: "R < a * P" using aP by simp
      obtain c where c: "R = c * P" using rnd_multiple [of P H m] R by auto
      then have "c < a" using lt by simp
      then have "c + 1 \<le> a" by simp
      then have "(c + 1) * P \<le> a * P" using mult_le_mono1 by blast
      then have "R + P \<le> K * T" using c aP by simp
      then show False using low key split True P2 P3 unfolding T_def by linarith
    qed
  qed
  have "R div T = K"
    using lower upper by (intro div_nat_eqI) (simp_all add: mult.commute)
  then show ?thesis by (simp add: R_def m_def K_def T_def)
qed


lemma font_size_of_floor:
  assumes "0 \<le> n" "n < 2 ^ 51"
  shows "font_size_of (PInt n) = Inr (3 * n div 5)"
proof (cases "n = 0")
  case True
  then show ?thesis
    by (simp add: float_of_int_def round53_def times_0_6_def int_of_float_def bit_length.simps)
next
  case False
  define k where "k = nat n"
  have k: "n = int k" "0 < k" "k < 2 ^ 51" using assms False by (simp_all add: k_def)
  have "k < 2 ^ 53" using k(3) by simp
  then have "bit_length k \<le> 53" by (simp add: bit_length_le_iff)
  then have r: "round53 k = k" by (simp add: round53_def)
  have f: "float_of_int n = Inr n"
    using k r \<open>k < 2 ^ 53\<close> by (simp add: float_of_int_def)
  have "int_of_float (times_0_6 n) = int (round53 (k * mantissa_0_6) div 2 ^ 53)"
    using k by (simp add: times_0_6_def int_of_float_def sgn_if zdiv_int)
  also have "\<dots> = int (3 * k div 5)"
    using round53_times_0_6 [OF k(3)] by simp
  also have "\<dots> = 3 * n div 5" using k by (simp add: zdiv_int)
  finally show ?thesis using f by simp
qed

text \<open>
  C4.  The claim: for every positive edge length the pixel size passed to the font loader
  is 60 per cent of the edge length rounded to an integer, 10 for the edge length 16.
  The code truncates: \<open>int(16 * 0.6)\<close> is 9.
\<close>

theorem font_size_16_counterexample:
  "font_size_of (PInt 16) = Inr 9 \<and> rounded_60_percent 16 = 10"
  by (simp add: float_of_int_def round53_def times_0_6_def int_of_float_def mantissa_0_6_def
      bit_length.simps rounded_60_percent_def)

text \<open>
  C4, amended.  For every edge length \<open>n\<close> with \<open>0 < n < 2^51\<close> the pixel size passed to
  the font loader is 60 per cent of \<open>n\<close> truncated to an integer, \<open>\<lfloor>3n/5\<rfloor>\<close>: the double
  arithmetic of \<open>int(n * 0.6)\<close> never moves the result across an integer in that range.
\<close>

theorem font_size_truncates:
  assumes "0 < n" and "n < 2 ^ 51"
  shows "font_size_of (PInt n) = Inr (3 * n div 5) \<and>
         try_body e (PInt n) = truetype e font_path (3 * n div 5)"
  using font_size_of_floor [of n] assms by (simp add: try_body_def)

theorem font_size_truncates_witness:
  "(0::int) < 16 \<and> (16::int) < 2 ^ 51 \<and> font_size_of (PInt 16) = Inr 9 \<and>
   try_body arial_env (PInt 16) = truetype arial_env font_path 9"
  using font_size_truncates [of 16 arial_env] by simp

section \<open>The canvas and the glyph\<close>

lemma new_image_PInt:
  "0 \<le> n \<Longrightarrow> n < 2 ^ 31 \<Longrightarrow> new_image (PInt n) c =
     Inr \<lparr>width = nat n, height = nat n, rows = replicate (nat n) (replicate (nat n) c)\<rparr>"
  by simp

lemma new_image_dims:
  assumes "new_image (PInt n) c = Inr img"
  shows "0 \<le> n \<and> n < 2 ^ 31 \<and> width img = nat n \<and> height img = nat n"
  using assms by (auto split: if_splits)

lemma new_image_integer:
  assumes "new_image sz c = Inr img"
  shows "\<exists>n. sz = PInt n \<and> 0 \<le> n \<and> n < 2 ^ 31"
  using assms by (cases sz) (auto split: if_splits)

lemma getpixel_new_image:
  assumes "new_image sz c = Inr img" and "i < width img" and "j < height img"
  shows "getpixel img i j = Some c \<and> rows img ! j ! i = c"
  using assms by (cases sz) (auto simp add: getpixel_def split: if_splits)

lemma draw_text_dims:
  "width (draw_text e img xy f ink) = width img \<and> height (draw_text e img xy f ink) = height img"
  by (simp add: draw_text_def split: prod.splits)

lemma getpixel_draw_text:
  assumes "textbbox xy f = (l, t, r, b)" and "i < width img" and "j < height img"
  shows "getpixel (draw_text e img xy f ink) i j =
         Some (if inside (l, t, r, b) i j
               then paint e (coverage f (nat (int i - l)) (nat (int j - t))) (rows img ! j ! i) ink
               else rows img ! j ! i)"
  using assms by (simp add: getpixel_def draw_text_def del: inside.simps)

lemma text_anchor_PInt:
  assumes "bbox f = (b0, b1, b2, b3)"
  shows "text_anchor (PInt n) f = Inr ((n - (b2 - b0)) div 2, (n - (b3 - b1)) div 2)"
  using assms by (simp add: text_anchor_def)

lemma render_PInt:
  assumes "new_image (PInt n) background = Inr canvas"
    and "bbox (select_font e (PInt n)) = (b0, b1, b2, b3)"
  shows "render e (PInt n) =
         Inr (draw_text e canvas ((n - (b2 - b0)) div 2, (n - (b3 - b1)) div 2)
                (select_font e (PInt n)) white)"
  using assms by (simp add: render_def text_anchor_PInt [OF assms(2)] Let_def del: new_image.simps)

lemma render_pixel:
  assumes "new_image (PInt n) background = Inr canvas"
    and "bbox (select_font e (PInt n)) = (b0, b1, b2, b3)"
    and "x = (n - (b2 - b0)) div 2" and "y = (n - (b3 - b1)) div 2"
    and "render e (PInt n) = Inr img"
    and "i < nat n" and "j < nat n"
  shows "getpixel img i j =
         Some (if inside (x + b0, y + b1, x + b2, y + b3) i j
               then paint e (coverage (select_font e (PInt n)) (nat (int i - (x + b0))) (nat (int j - (y + b1))))
                      background white
               else background)"
proof -
  have d: "width canvas = nat n" "height canvas = nat n"
    using new_image_dims [OF assms(1)] by simp_all
  have img: "img = draw_text e canvas (x, y) (select_font e (PInt n)) white"
    using render_PInt [OF assms(1,2)] assms(3,4,5) by simp
  have bb: "textbbox (x, y) (select_font e (PInt n)) = (x + b0, y + b1, x + b2, y + b3)"
    using assms(2) by simp
  have px: "rows canvas ! j ! i = background"
    using getpixel_new_image [OF assms(1), of i j] d assms(6,7) by simp
  show ?thesis
    unfolding img using getpixel_draw_text [OF bb, of i canvas j e white] d assms(6,7) px
    by (simp del: inside.simps)
qed


lemma paint_zero: "paint e 0 old ink = old"
  by (simp add: paint_def)

lemma paint_full: "255 \<le> c \<Longrightarrow> paint e c old ink = ink"
  by (simp add: paint_def)

lemma sample_default: "select_font sample_env sz = sample_font"
  by (simp add: select_font_def try_body_def sample_env_def split: sum.splits)

lemma render_ok:
  assumes "0 \<le> n" and "n < 2 ^ 31"
  shows "\<exists>img. render e (PInt n) = Inr img \<and> width img = nat n \<and> height img = nat n"
proof -
  obtain b0 b1 b2 b3 where bb: "bbox (select_font e (PInt n)) = (b0, b1, b2, b3)"
    by (cases "bbox (select_font e (PInt n))") auto
  show ?thesis
    using render_PInt [OF new_image_PInt [OF assms] bb] by (simp add: draw_text_dims)
qed

text \<open>
  C1.  For a positive edge length \<open>n\<close>, the canvas allocated on line 7 is \<open>n\<close> by \<open>n\<close>
  pixels, all of the background colour \<open>#667eea\<close>; the finished picture is that canvas
  with the glyph drawn on it, \<open>n\<close> by \<open>n\<close> too, and each of its pixels that the glyph does
  not cover (outside the box the text is drawn into, or under a mask cell of coverage
  zero) still has the background colour.  For the three configured edge lengths 16, 48 and
  128 the canvas is allocated and the picture has exactly these dimensions.
\<close>

theorem canvas_filled:
  assumes "0 < n" and "new_image (PInt n) background = Inr canvas"
  shows "width canvas = nat n \<and> height canvas = nat n \<and>
         (\<forall>i<nat n. \<forall>j<nat n. getpixel canvas i j = Some background) \<and>
         (\<exists>x y img.
            text_anchor (PInt n) (select_font e (PInt n)) = Inr (x, y) \<and>
            render e (PInt n) = Inr img \<and>
            img = draw_text e canvas (x, y) (select_font e (PInt n)) white \<and>
            width img = nat n \<and> height img = nat n \<and>
            (\<forall>l t r b i j.
               textbbox (x, y) (select_font e (PInt n)) = (l, t, r, b) \<longrightarrow>
               i < nat n \<longrightarrow> j < nat n \<longrightarrow>
               (inside (l, t, r, b) i j \<longrightarrow>
                  coverage (select_font e (PInt n)) (nat (int i - l)) (nat (int j - t)) = 0) \<longrightarrow>
               getpixel img i j = Some background)) \<and>
         (\<forall>L\<in>{16, 48, 128}. \<exists>c img.
            new_image (PInt L) background = Inr c \<and> width c = nat L \<and> height c = nat L \<and>
            render e (PInt L) = Inr img \<and> width img = nat L \<and> height img = nat L)"
proof -
  define f where "f = select_font e (PInt n)"
  obtain b0 b1 b2 b3 where bb: "bbox f = (b0, b1, b2, b3)"
    by (cases "bbox f") auto
  define x where "x = (n - (b2 - b0)) div 2"
  define y where "y = (n - (b3 - b1)) div 2"
  define img where "img = draw_text e canvas (x, y) f white"
  note c = assms(2)
  have d: "width canvas = nat n" "height canvas = nat n"
    using new_image_dims [OF c] by simp_all
  have r: "render e (PInt n) = Inr img"
    using render_PInt [OF c, of e b0 b1 b2 b3] bb by (simp add: f_def img_def x_def y_def)
  have a: "text_anchor (PInt n) f = Inr (x, y)"
    using text_anchor_PInt [OF bb] by (simp add: x_def y_def)
  have t: "textbbox (x, y) f = (x + b0, y + b1, x + b2, y + b3)"
    using bb by simp
  have px: "getpixel img i j = Some background"
    if "i < nat n" "j < nat n"
      "inside (x + b0, y + b1, x + b2, y + b3) i j \<longrightarrow>
         coverage f (nat (int i - (x + b0))) (nat (int j - (y + b1))) = 0" for i j
    using render_pixel [OF c bb [unfolded f_def] x_def y_def r that(1,2)] that(3)
    by (simp add: f_def paint_zero del: inside.simps)
  have cv: "\<forall>i<nat n. \<forall>j<nat n. getpixel canvas i j = Some background"
    using getpixel_new_image [OF c] d by simp
  have di: "width img = nat n" "height img = nat n"
    by (simp_all add: img_def draw_text_dims d)
  have pic: "\<exists>x y img.
            text_anchor (PInt n) f = Inr (x, y) \<and>
            render e (PInt n) = Inr img \<and>
            img = draw_text e canvas (x, y) f white \<and>
            width img = nat n \<and> height img = nat n \<and>
            (\<forall>l t r b i j.
               textbbox (x, y) f = (l, t, r, b) \<longrightarrow>
               i < nat n \<longrightarrow> j < nat n \<longrightarrow>
               (inside (l, t, r, b) i j \<longrightarrow>
                  coverage f (nat (int i - l)) (nat (int j - t)) = 0) \<longrightarrow>
               getpixel img i j = Some background)"
    using a r di px t
    by (intro exI [of _ x] exI [of _ y] exI [of _ img])
      (auto simp add: img_def simp del: inside.simps textbbox.simps)
  have three: "\<exists>c img.
            new_image (PInt L) background = Inr c \<and> width c = nat L \<and> height c = nat L \<and>
            render e (PInt L) = Inr img \<and> width img = nat L \<and> height img = nat L"
    if "0 \<le> L" "L < 2 ^ 31" for L
    using render_ok [OF that, of e] new_image_PInt [OF that, of background] by auto
  have "\<forall>L\<in>{16, 48, 128}. \<exists>c img.
            new_image (PInt L) background = Inr c \<and> width c = nat L \<and> height c = nat L \<and>
            render e (PInt L) = Inr img \<and> width img = nat L \<and> height img = nat L"
    using three [of 16] three [of 48] three [of 128] by simp
  then show ?thesis
    using d cv pic unfolding f_def by blast
qed

theorem canvas_filled_witness:
  "(0::int) < 16 \<and>
   new_image (PInt 16) background =
     Inr \<lparr>width = 16, height = 16, rows = replicate 16 (replicate 16 background)\<rparr> \<and>
   (\<exists>img. render sample_env (PInt 16) = Inr img \<and> width img = 16 \<and> height img = 16 \<and>
      getpixel img 0 0 = Some background \<and> getpixel img 15 15 = Some background \<and>
      getpixel img 8 8 = Some background)"
proof -
  have p: "(0::int) < 16" by simp
  have c: "new_image (PInt 16) background =
     Inr \<lparr>width = 16, height = 16, rows = replicate 16 (replicate 16 background)\<rparr>"
    by simp
  have a: "text_anchor (PInt 16) sample_font = Inr (6, 5)"
    by (simp add: text_anchor_def sample_font_def)
  have t: "textbbox (6, 5) sample_font = (7, 7, 10, 12)"
    by (simp add: sample_font_def)
  have cov: "coverage sample_font 1 1 = 0"
    by (simp add: sample_font_def)
  from canvas_filled [OF p c, of sample_env] obtain img where
    r: "render sample_env (PInt 16) = Inr img" "width img = 16" "height img = 16" and
    px: "\<And>i j. i < 16 \<Longrightarrow> j < 16 \<Longrightarrow>
           (inside (7, 7, 10, 12) i j \<longrightarrow> coverage sample_font (nat (int i - 7)) (nat (int j - 7)) = 0) \<Longrightarrow>
           getpixel img i j = Some background"
    unfolding sample_default using a t by (auto simp del: inside.simps textbbox.simps new_image.simps)
  have "getpixel img 0 0 = Some background" by (rule px) simp_all
  moreover have "getpixel img 15 15 = Some background" by (rule px) simp_all
  moreover have "getpixel img 8 8 = Some background" using cov by (intro px) simp_all
  ultimately show ?thesis using r c by simp
qed

text \<open>
  C2.  The glyph is measured with \<open>textbbox((0, 0), "L", font)\<close> under the selected font
  and drawn with the fill colour white at the anchor \<open>((n - text_width) div 2,
  (n - text_height) div 2)\<close>, where \<open>div\<close> is floor division; every pixel of the canvas
  under a fully covered mask cell comes out white.
\<close>

theorem glyph_drawn_white_at_offsets:
  assumes "new_image (PInt n) background = Inr canvas"
    and "bbox (select_font e (PInt n)) = (b0, b1, b2, b3)"
    and "text_width = b2 - b0" and "text_height = b3 - b1"
  shows "textbbox (0, 0) (select_font e (PInt n)) = (b0, b1, b2, b3) \<and>
         text_anchor (PInt n) (select_font e (PInt n)) =
           Inr ((n - text_width) div 2, (n - text_height) div 2) \<and>
         render e (PInt n) =
           Inr (draw_text e canvas ((n - text_width) div 2, (n - text_height) div 2)
                  (select_font e (PInt n)) white) \<and>
         white = (255, 255, 255) \<and>
         (\<forall>img i j. render e (PInt n) = Inr img \<longrightarrow> i < nat n \<longrightarrow> j < nat n \<longrightarrow>
            inside (textbbox ((n - text_width) div 2, (n - text_height) div 2)
                      (select_font e (PInt n))) i j \<longrightarrow>
            255 \<le> coverage (select_font e (PInt n))
                     (nat (int i - ((n - text_width) div 2 + b0)))
                     (nat (int j - ((n - text_height) div 2 + b1))) \<longrightarrow>
            getpixel img i j = Some (255, 255, 255))"
proof -
  have "getpixel img i j = Some (255, 255, 255)"
    if "render e (PInt n) = Inr img" "i < nat n" "j < nat n"
      "inside (textbbox ((n - text_width) div 2, (n - text_height) div 2)
                 (select_font e (PInt n))) i j"
      "255 \<le> coverage (select_font e (PInt n))
                (nat (int i - ((n - text_width) div 2 + b0)))
                (nat (int j - ((n - text_height) div 2 + b1)))" for img i j
    using render_pixel [OF assms(1,2) refl refl that(1,2,3)] that(4,5) assms(2,3,4)
    by (simp add: paint_full white_def del: inside.simps)
  then show ?thesis
    using assms(2) text_anchor_PInt [OF assms(2), of n] render_PInt [OF assms(1,2)] assms(3,4)
    by (simp add: white_def del: inside.simps new_image.simps)
qed

theorem glyph_drawn_white_at_offsets_witness:
  "new_image (PInt 16) background =
     Inr \<lparr>width = 16, height = 16, rows = replicate 16 (replicate 16 background)\<rparr> \<and>
   bbox (select_font sample_env (PInt 16)) = (1, 2, 4, 7) \<and>
   text_anchor (PInt 16) (select_font sample_env (PInt 16)) = Inr (6, 5) \<and>
   (\<exists>img. render sample_env (PInt 16) = Inr img \<and> getpixel img 7 7 = Some (255, 255, 255))"
proof -
  have c: "new_image (PInt 16) background =
     Inr \<lparr>width = 16, height = 16, rows = replicate 16 (replicate 16 background)\<rparr>"
    by simp
  have b: "bbox (select_font sample_env (PInt 16)) = (1, 2, 4, 7)"
    by (simp add: sample_default sample_font_def)
  have cov: "coverage (select_font sample_env (PInt 16)) 0 0 = 255"
    by (simp add: sample_default sample_font_def)
  note th = glyph_drawn_white_at_offsets [OF c b refl refl]
  have a: "text_anchor (PInt 16) (select_font sample_env (PInt 16)) = Inr (6, 5)"
    using th by simp
  obtain img where r: "render sample_env (PInt 16) = Inr img"
    using th by blast
  have "inside (textbbox ((16 - (4 - 1)) div 2, (16 - (7 - 2)) div 2)
                  (select_font sample_env (PInt 16))) 7 7"
    using b by simp
  moreover have "255 \<le> coverage (select_font sample_env (PInt 16))
                   (nat (int 7 - ((16 - (4 - 1)) div 2 + 1)))
                   (nat (int 7 - ((16 - (7 - 2)) div 2 + 2)))"
    using cov by simp
  ultimately have "getpixel img 7 7 = Some (255, 255, 255)"
    using th r by (auto simp del: inside.simps textbbox.simps)
  then show ?thesis using a b c r by blast
qed




section \<open>\<open>create_icon\<close>: fallback, saving and failures\<close>

lemma create_icon_rendered:
  assumes "render e sz = Inr img"
  shows "create_icon e sz filename w =
         seq (save e img (icon_path filename)) (print (''Created '' @ filename)) w"
  using assms by (simp add: create_icon_def)

lemma create_icon_saved:
  assumes "render e sz = Inr img" and "write_error e (icon_path filename) img = None"
  shows "create_icon e sz filename w =
         (None, w\<lparr>files := (files w)(icon_path filename \<mapsto> encode_png e img),
                   stdout := stdout w @ [''Created '' @ filename]\<rparr>)"
  using assms by (simp add: create_icon_def seq_def save_def print_def)

lemma create_icon_write_fails:
  assumes "render e sz = Inr img" and "write_error e (icon_path filename) img = Some err"
  shows "create_icon e sz filename w =
         (Some err, w\<lparr>files := (files w)(icon_path filename :=
                          write_residue e (icon_path filename) (files w (icon_path filename)))\<rparr>)"
  using assms by (simp add: create_icon_def seq_def save_def)

lemma create_icon_render_fails:
  assumes "render e sz = Inl err"
  shows "create_icon e sz filename w = (Some err, w)"
  using assms by (simp add: create_icon_def)

lemma create_icon_outcome:
  assumes "render e sz = Inr img"
  shows "fst (create_icon e sz filename w) = write_error e (icon_path filename) img"
  using assms by (cases "write_error e (icon_path filename) img")
    (simp_all add: create_icon_saved create_icon_write_fails)

lemma create_icon_other_files:
  assumes "p \<noteq> icon_path filename"
  shows "files (snd (create_icon e sz filename w)) p = files w p"
proof (cases "render e sz")
  case (Inl err)
  then show ?thesis by (simp add: create_icon_render_fails)
next
  case (Inr img)
  then show ?thesis using assms
    by (cases "write_error e (icon_path filename) img")
      (simp_all add: create_icon_saved create_icon_write_fails)
qed

text \<open>
  C10.  Nothing compares the edge length with the glyph's measured size.  For every
  positive \<open>n\<close> whose canvas was allocated and whatever box the selected font reports, the
  picture is \<open>n\<close> by \<open>n\<close> and it is what gets saved; when the glyph is wider (taller) than
  \<open>n\<close> the horizontal (vertical) offset is negative, by floor division, and the box the
  glyph is drawn into has a column (row) outside the canvas.  No step raises for that
  reason: once the canvas is there, the only exception that can leave \<open>create_icon\<close> is
  the one of the write.
\<close>

theorem no_size_validation:
  assumes "0 < n" and "new_image (PInt n) background = Inr canvas"
    and "bbox (select_font e (PInt n)) = (b0, b1, b2, b3)"
  shows "\<exists>img x y.
           text_anchor (PInt n) (select_font e (PInt n)) = Inr (x, y) \<and>
           render e (PInt n) = Inr img \<and>
           img = draw_text e canvas (x, y) (select_font e (PInt n)) white \<and>
           width img = nat n \<and> height img = nat n \<and>
           (n < b2 - b0 \<longrightarrow> x < 0 \<and> (\<exists>i. x + b0 \<le> i \<and> i < x + b2 \<and> \<not> (0 \<le> i \<and> i < n))) \<and>
           (n < b3 - b1 \<longrightarrow> y < 0 \<and> (\<exists>j. y + b1 \<le> j \<and> j < y + b3 \<and> \<not> (0 \<le> j \<and> j < n))) \<and>
           fst (create_icon e (PInt n) filename w) = write_error e (icon_path filename) img \<and>
           (write_error e (icon_path filename) img = None \<longrightarrow>
              files (snd (create_icon e (PInt n) filename w)) (icon_path filename) =
                Some (encode_png e img))"
proof -
  define x where "x = (n - (b2 - b0)) div 2"
  define y where "y = (n - (b3 - b1)) div 2"
  define img where "img = draw_text e canvas (x, y) (select_font e (PInt n)) white"
  have r: "render e (PInt n) = Inr img"
    using render_PInt [OF assms(2,3)] by (simp add: img_def x_def y_def)
  have i: "img = draw_text e canvas (x, y) (select_font e (PInt n)) white"
    by (simp add: img_def)
  have d: "width img = nat n" "height img = nat n"
    using new_image_dims [OF assms(2)] by (simp_all add: img_def draw_text_dims)
  have a: "text_anchor (PInt n) (select_font e (PInt n)) = Inr (x, y)"
    using text_anchor_PInt [OF assms(3)] by (simp add: x_def y_def)
  have outside: "\<exists>i. u + c \<le> i \<and> i < u + d \<and> \<not> (0 \<le> i \<and> i < n)" if "n < d - c" for u c d :: int
  proof (cases "u + c < 0")
    case True
    then show ?thesis using that assms(1) by (intro exI [of _ "u + c"]) simp
  next
    case False
    then show ?thesis using that assms(1) by (intro exI [of _ "u + d - 1"]) simp
  qed
  have hx: "n < b2 - b0 \<longrightarrow> x < 0 \<and> (\<exists>i. x + b0 \<le> i \<and> i < x + b2 \<and> \<not> (0 \<le> i \<and> i < n))"
    using outside [of b2 b0 x] by (auto simp add: x_def)
  have hy: "n < b3 - b1 \<longrightarrow> y < 0 \<and> (\<exists>j. y + b1 \<le> j \<and> j < y + b3 \<and> \<not> (0 \<le> j \<and> j < n))"
    using outside [of b3 b1 y] by (auto simp add: y_def)
  have s: "write_error e (icon_path filename) img = None \<longrightarrow>
              files (snd (create_icon e (PInt n) filename w)) (icon_path filename) =
                Some (encode_png e img)"
    using create_icon_saved [OF r] by simp
  have o: "fst (create_icon e (PInt n) filename w) = write_error e (icon_path filename) img"
    by (rule create_icon_outcome [OF r])
  show ?thesis
    by (rule exI [of _ img], rule exI [of _ x], rule exI [of _ y])
      (intro conjI a r i d hx hy s o)
qed

theorem no_size_validation_witness:
  "(0::int) < 2 \<and>
   new_image (PInt 2) background =
     Inr \<lparr>width = 2, height = 2, rows = replicate 2 (replicate 2 background)\<rparr> \<and>
   bbox (select_font sample_env (PInt 2)) = (1, 2, 4, 7) \<and>
   text_anchor (PInt 2) (select_font sample_env (PInt 2)) = Inr (- 1, - 2) \<and>
   (\<exists>img. render sample_env (PInt 2) = Inr img \<and> width img = 2 \<and> height img = 2 \<and>
      create_icon sample_env (PInt 2) ''tiny.png'' empty_world =
        (None, empty_world\<lparr>files := (files empty_world)(icon_path ''tiny.png'' \<mapsto> encode_png sample_env img),
                 stdout := [''Created tiny.png'']\<rparr>))"
proof -
  have c: "new_image (PInt 2) background =
     Inr \<lparr>width = 2, height = 2, rows = replicate 2 (replicate 2 background)\<rparr>"
    by simp
  have b: "bbox (select_font sample_env (PInt 2)) = (1, 2, 4, 7)"
    by (simp add: sample_default sample_font_def)
  have a: "text_anchor (PInt 2) (select_font sample_env (PInt 2)) = Inr (- 1, - 2)"
    using text_anchor_PInt [OF b, of 2] by simp
  have we: "write_error sample_env (icon_path ''tiny.png'') img = None" for img
    by (simp add: sample_env_def)
  have p: "(0::int) < 2" by simp
  from no_size_validation [OF p c b, of "''tiny.png''" empty_world]
  obtain img where img: "render sample_env (PInt 2) = Inr img" "width img = 2" "height img = 2"
    by auto
  have "create_icon sample_env (PInt 2) ''tiny.png'' empty_world =
        (None, empty_world\<lparr>files := (files empty_world)(icon_path ''tiny.png'' \<mapsto> encode_png sample_env img),
                 stdout := [''Created tiny.png'']\<rparr>)"
    using create_icon_saved [OF img(1) we, of empty_world] by (simp add: empty_world_def)
  then show ?thesis using p a b c img by blast
qed

lemma select_font_fallback:
  assumes "try_body e sz = Inl err"
  shows "select_font e sz = load_default e"
  using assms by (simp add: select_font_def)

text \<open>
  C3.  If loading the primary font fails, whatever the error, \<open>create_icon\<close> goes on with
  the built-in default font: the glyph is measured and drawn with the default font on the
  canvas allocated before, which gives a non-empty \<open>n\<close> by \<open>n\<close> picture; the loader's
  error never reaches the caller (the outcome of the call is the outcome of the write
  alone), and when the write succeeds the picture is saved and reported.
\<close>

theorem font_fallback:
  assumes "0 < n" and "new_image (PInt n) background = Inr canvas"
    and "font_size_of (PInt n) = Inr s" and "truetype e font_path s = Inl err"
  shows "select_font e (PInt n) = load_default e \<and>
         (\<exists>xy img.
            text_anchor (PInt n) (load_default e) = Inr xy \<and>
            render e (PInt n) = Inr img \<and>
            img = draw_text e canvas xy (load_default e) white \<and>
            width img = nat n \<and> height img = nat n \<and> 0 < width img * height img \<and>
            fst (create_icon e (PInt n) filename w) = write_error e (icon_path filename) img \<and>
            (write_error e (icon_path filename) img = None \<longrightarrow>
               create_icon e (PInt n) filename w =
                 (None, w\<lparr>files := (files w)(icon_path filename \<mapsto> encode_png e img),
                           stdout := stdout w @ [''Created '' @ filename]\<rparr>)))"
proof -
  have "try_body e (PInt n) = Inl err"
    using assms(3,4) by (simp add: try_body_def)
  then have f: "select_font e (PInt n) = load_default e"
    by (rule select_font_fallback)
  obtain b0 b1 b2 b3 where bb: "bbox (load_default e) = (b0, b1, b2, b3)"
    by (cases "bbox (load_default e)") auto
  define xy where "xy = ((n - (b2 - b0)) div 2, (n - (b3 - b1)) div 2)"
  define img where "img = draw_text e canvas xy (load_default e) white"
  have a: "text_anchor (PInt n) (load_default e) = Inr xy"
    unfolding xy_def by (rule text_anchor_PInt [OF bb])
  have r: "render e (PInt n) = Inr img"
    using render_PInt [of n canvas e b0 b1 b2 b3] assms(2) bb f by (simp add: img_def xy_def)
  have i: "img = draw_text e canvas xy (load_default e) white"
    by (simp add: img_def)
  have d: "width img = nat n" "height img = nat n"
    using new_image_dims [OF assms(2)] by (simp_all add: img_def draw_text_dims)
  have pos: "0 < width img * height img" using d assms(1) by simp
  have o: "fst (create_icon e (PInt n) filename w) = write_error e (icon_path filename) img"
    by (rule create_icon_outcome [OF r])
  have sv: "write_error e (icon_path filename) img = None \<longrightarrow>
               create_icon e (PInt n) filename w =
                 (None, w\<lparr>files := (files w)(icon_path filename \<mapsto> encode_png e img),
                           stdout := stdout w @ [''Created '' @ filename]\<rparr>)"
    using create_icon_saved [OF r] by simp
  show ?thesis
    by (rule conjI [OF f], rule exI [of _ xy], rule exI [of _ img]) (intro conjI a r i d pos o sv)
qed

theorem font_fallback_witness:
  "(0::int) < 16 \<and>
   new_image (PInt 16) background =
     Inr \<lparr>width = 16, height = 16, rows = replicate 16 (replicate 16 background)\<rparr> \<and>
   font_size_of (PInt 16) = Inr 9 \<and>
   truetype sample_env font_path 9 = Inl OSError \<and>
   select_font sample_env (PInt 16) = sample_font \<and>
   (\<exists>img. render sample_env (PInt 16) = Inr img \<and>
      img = draw_text sample_env
              \<lparr>width = 16, height = 16, rows = replicate 16 (replicate 16 background)\<rparr>
              (6, 5) sample_font white \<and>
      width img = 16 \<and> height img = 16 \<and>
      create_icon sample_env (PInt 16) ''icon16.png'' empty_world =
        (None, empty_world\<lparr>files := (files empty_world)(icon_path ''icon16.png'' \<mapsto> encode_png sample_env img),
                 stdout := stdout empty_world @ [''Created icon16.png'']\<rparr>))"
proof -
  have p: "(0::int) < 16" by simp
  have c: "new_image (PInt 16) background =
     Inr \<lparr>width = 16, height = 16, rows = replicate 16 (replicate 16 background)\<rparr>"
    by simp
  have s: "font_size_of (PInt 16) = Inr 9"
    using font_size_of_floor [of 16] by simp
  have t: "truetype sample_env font_path 9 = Inl OSError"
    by (simp add: sample_env_def)
  have we: "write_error sample_env (icon_path ''icon16.png'') img = None" for img
    by (simp add: sample_env_def)
  have d: "load_default sample_env = sample_font"
    by (simp add: sample_env_def)
  have a: "text_anchor (PInt 16) sample_font = Inr (6, 5)"
    by (simp add: text_anchor_def sample_font_def)
  show ?thesis
    using font_fallback [OF p c s t, of "''icon16.png''" empty_world] c s t we d a
    by (auto simp del: new_image.simps)
qed

text \<open>
  C9.  The claim: any exception inside the \<open>try\<close> block triggers the fallback, a failure
  to compute \<open>font_size\<close> from a non-numeric \<open>size\<close> included, and \<open>create_icon\<close> then goes on
  with the default font instead of raising.  For the non-numeric size \<open>"16"\<close> computing
  \<open>font_size\<close> would indeed fail, but the call never gets there: allocating the canvas on
  line 7 raises first, and \<open>create_icon\<close> raises without writing anything.
\<close>

theorem non_numeric_size_counterexample:
  "try_body sample_env (PStr ''16'') = Inl TypeError \<and>
   create_icon sample_env (PStr ''16'') ''icon16.png'' empty_world = (Some TypeError, empty_world)"
  by (simp add: try_body_def create_icon_def render_def)

text \<open>
  C9, amended.  Lines 11 to 15 never raise: an exception in the \<open>try\<close> body, from
  computing \<open>font_size\<close> or from the loader, selects the default font.  But \<open>create_icon\<close>
  gets to the \<open>try\<close> only after the canvas was allocated on line 7, which needs an integer
  size from 0 up to \<open>2^31 - 1\<close>; for such a size computing \<open>font_size\<close> cannot fail (it is
  \<open>\<lfloor>3n/5\<rfloor>\<close>), so the only exception that can arise in the \<open>try\<close> body is the loader's.
  When it does, \<open>create_icon\<close> goes on with the default font: the glyph is measured and
  drawn with it, and the only exception that can leave the call is the one of the write.
\<close>

theorem fallback_on_any_exception:
  "(font_size_of sz = Inl err \<longrightarrow> try_body e sz = Inl err) \<and>
   (font_size_of sz = Inr s \<and> truetype e font_path s = Inl err \<longrightarrow> try_body e sz = Inl err) \<and>
   (try_body e sz = Inl err \<longrightarrow> select_font e sz = load_default e) \<and>
   (new_image sz background = Inr canvas \<longrightarrow>
      (\<exists>n. sz = PInt n \<and> 0 \<le> n \<and> n < 2 ^ 31 \<and>
         font_size_of sz = Inr (3 * n div 5) \<and>
         try_body e sz = truetype e font_path (3 * n div 5)) \<and>
      (try_body e sz = Inl err \<longrightarrow>
         (\<exists>xy. text_anchor sz (load_default e) = Inr xy \<and>
            render e sz = Inr (draw_text e canvas xy (load_default e) white) \<and>
            fst (create_icon e sz filename w) =
              write_error e (icon_path filename) (draw_text e canvas xy (load_default e) white))))"
proof -
  have body: "(font_size_of sz = Inl err \<longrightarrow> try_body e sz = Inl err) \<and>
     (font_size_of sz = Inr s \<and> truetype e font_path s = Inl err \<longrightarrow> try_body e sz = Inl err) \<and>
     (try_body e sz = Inl err \<longrightarrow> select_font e sz = load_default e)"
    by (auto simp add: try_body_def select_font_def)
  have alloc: "(\<exists>n. sz = PInt n \<and> 0 \<le> n \<and> n < 2 ^ 31 \<and>
         font_size_of sz = Inr (3 * n div 5) \<and>
         try_body e sz = truetype e font_path (3 * n div 5)) \<and>
      (try_body e sz = Inl err \<longrightarrow>
         (\<exists>xy. text_anchor sz (load_default e) = Inr xy \<and>
            render e sz = Inr (draw_text e canvas xy (load_default e) white) \<and>
            fst (create_icon e sz filename w) =
              write_error e (icon_path filename) (draw_text e canvas xy (load_default e) white)))"
    if c: "new_image sz background = Inr canvas"
  proof -
    obtain n where sz: "sz = PInt n" and n: "0 \<le> n" "n < 2 ^ 31"
      using new_image_integer [OF c] by auto
    have "n < 2 ^ 51" using n(2) by simp
    then have fs: "font_size_of sz = Inr (3 * n div 5)"
      unfolding sz using n(1) by (intro font_size_of_floor)
    then have tb: "try_body e sz = truetype e font_path (3 * n div 5)"
      by (simp add: try_body_def)
    obtain b0 b1 b2 b3 where bb: "bbox (load_default e) = (b0, b1, b2, b3)"
      by (cases "bbox (load_default e)") auto
    have cont: "\<exists>xy. text_anchor sz (load_default e) = Inr xy \<and>
            render e sz = Inr (draw_text e canvas xy (load_default e) white) \<and>
            fst (create_icon e sz filename w) =
              write_error e (icon_path filename) (draw_text e canvas xy (load_default e) white)"
      if t: "try_body e sz = Inl err"
    proof -
      have f: "select_font e sz = load_default e"
        using t by (rule select_font_fallback)
      have a: "text_anchor sz (load_default e) = Inr ((n - (b2 - b0)) div 2, (n - (b3 - b1)) div 2)"
        unfolding sz by (rule text_anchor_PInt [OF bb])
      have r: "render e sz = Inr (draw_text e canvas ((n - (b2 - b0)) div 2, (n - (b3 - b1)) div 2) (load_default e) white)"
        using render_PInt [of n canvas e b0 b1 b2 b3] c bb f unfolding sz by simp
      have o: "fst (create_icon e sz filename w) =
               write_error e (icon_path filename)
                 (draw_text e canvas ((n - (b2 - b0)) div 2, (n - (b3 - b1)) div 2) (load_default e) white)"
        by (rule create_icon_outcome [OF r])
      show ?thesis
        by (rule exI [of _ "((n - (b2 - b0)) div 2, (n - (b3 - b1)) div 2)"]) (intro conjI a r o)
    qed
    have "\<exists>n. sz = PInt n \<and> 0 \<le> n \<and> n < 2 ^ 31 \<and>
         font_size_of sz = Inr (3 * n div 5) \<and>
         try_body e sz = truetype e font_path (3 * n div 5)"
      by (rule exI [of _ n]) (intro conjI sz n fs tb)
    then show ?thesis using cont by blast
  qed
  show ?thesis using body alloc by blast
qed

theorem fallback_on_any_exception_witness:
  "font_size_of (PStr ''16'') = Inl TypeError \<and>
   try_body sample_env (PStr ''16'') = Inl TypeError \<and>
   select_font sample_env (PStr ''16'') = sample_font \<and>
   new_image (PInt 1) background = Inr \<lparr>width = 1, height = 1, rows = [[background]]\<rparr> \<and>
   font_size_of (PInt 1) = Inr 0 \<and> truetype arial_env font_path 0 = Inl OSError \<and>
   try_body arial_env (PInt 1) = Inl OSError \<and>
   select_font arial_env (PInt 1) = sample_font \<and>
   render arial_env (PInt 1) =
     Inr (draw_text arial_env \<lparr>width = 1, height = 1, rows = [[background]]\<rparr> (- 1, - 2) sample_font white) \<and>
   fst (create_icon arial_env (PInt 1) ''dot.png'' empty_world) = None"
proof -
  have c: "new_image (PInt 1) background = Inr \<lparr>width = 1, height = 1, rows = [[background]]\<rparr>"
    by simp
  have t: "truetype arial_env font_path 0 = Inl OSError"
    by (simp add: arial_env_def sample_env_def)
  have d: "load_default arial_env = sample_font" "load_default sample_env = sample_font"
    by (simp_all add: arial_env_def sample_env_def)
  have we: "write_error arial_env (icon_path ''dot.png'') img = None" for img
    by (simp add: arial_env_def sample_env_def)
  have a: "text_anchor (PInt 1) sample_font = Inr (- 1, - 2)"
    by (simp add: text_anchor_def sample_font_def)
  note str = fallback_on_any_exception [where sz = "PStr ''16''" and err = TypeError
      and e = sample_env and s = 0
      and canvas = "\<lparr>width = 1, height = 1, rows = [[background]]\<rparr>" and filename = "''dot.png''" and w = empty_world]
  note one = fallback_on_any_exception [where sz = "PInt 1" and err = OSError
      and e = arial_env and s = 0
      and canvas = "\<lparr>width = 1, height = 1, rows = [[background]]\<rparr>"
      and filename = "''dot.png''" and w = empty_world]
  have s1: "font_size_of (PStr ''16'') = Inl TypeError \<and>
        try_body sample_env (PStr ''16'') = Inl TypeError \<and>
        select_font sample_env (PStr ''16'') = sample_font"
    using str d by simp
  have fs: "font_size_of (PInt 1) = Inr 0"
    using one c by (auto simp del: new_image.simps)
  have tb: "try_body arial_env (PInt 1) = Inl OSError"
    using one fs t by simp
  have s2: "select_font arial_env (PInt 1) = sample_font \<and>
        render arial_env (PInt 1) =
          Inr (draw_text arial_env \<lparr>width = 1, height = 1, rows = [[background]]\<rparr> (- 1, - 2) sample_font white) \<and>
        fst (create_icon arial_env (PInt 1) ''dot.png'' empty_world) = None"
    using one c tb d a we by (auto simp del: new_image.simps)
  show ?thesis using s1 s2 c fs t tb by simp
qed

text \<open>
  For an integer size the computation of \<open>font_size\<close> itself fails only when the size is
  too large for a double, far beyond the sizes for which a canvas is allocated.
\<close>

lemma font_size_overflows: "font_size_of (PInt (2 ^ 1024)) = Inl OverflowError"
  by (simp add: float_of_int_def round53_def bit_length.simps)


section \<open>The script: three icons in sequence\<close>

lemma icon_path_inject: "icon_path a = icon_path b \<longleftrightarrow> a = b"
  by (simp add: icon_path_def)

lemma main_mkdir_fails:
  assumes "mkdir_error e icons_dir = Some err"
  shows "main e w = (Some err, w)"
  using assms by (simp add: main_def seq_def makedirs_def)

lemma main_first_write_fails:
  assumes "mkdir_error e icons_dir = None"
    and "render e (PInt 16) = Inr i16"
    and "write_error e (icon_path ''icon16.png'') i16 = Some err"
  shows "main e w =
         (Some err, w\<lparr>dirs := insert icons_dir (dirs w),
                        files := (files w)(icon_path ''icon16.png'' :=
                          write_residue e (icon_path ''icon16.png'') (files w (icon_path ''icon16.png'')))\<rparr>)"
  using assms(1,3)
  by (simp add: main_def seq_def makedirs_def create_icon_write_fails [OF assms(2,3)])

lemma main_second_write_fails:
  assumes "mkdir_error e icons_dir = None"
    and "render e (PInt 16) = Inr i16" and "render e (PInt 48) = Inr i48"
    and "write_error e (icon_path ''icon16.png'') i16 = None"
    and "write_error e (icon_path ''icon48.png'') i48 = Some err"
  shows "main e w =
         (Some err, w\<lparr>dirs := insert icons_dir (dirs w),
                        files := (files w)(icon_path ''icon16.png'' \<mapsto> encode_png e i16,
                          icon_path ''icon48.png'' :=
                            write_residue e (icon_path ''icon48.png'') (files w (icon_path ''icon48.png''))),
                        stdout := stdout w @ [''Created icon16.png'']\<rparr>)"
  using assms(1)
  by (simp add: main_def seq_def makedirs_def create_icon_saved [OF assms(2,4)]
      create_icon_write_fails [OF assms(3,5)] icon_path_inject)

lemma main_third_write_fails:
  assumes "mkdir_error e icons_dir = None"
    and "render e (PInt 16) = Inr i16" and "render e (PInt 48) = Inr i48"
    and "render e (PInt 128) = Inr i128"
    and "write_error e (icon_path ''icon16.png'') i16 = None"
    and "write_error e (icon_path ''icon48.png'') i48 = None"
    and "write_error e (icon_path ''icon128.png'') i128 = Some err"
  shows "main e w =
         (Some err, w\<lparr>dirs := insert icons_dir (dirs w),
                        files := (files w)(icon_path ''icon16.png'' \<mapsto> encode_png e i16,
                          icon_path ''icon48.png'' \<mapsto> encode_png e i48,
                          icon_path ''icon128.png'' :=
                            write_residue e (icon_path ''icon128.png'') (files w (icon_path ''icon128.png''))),
                        stdout := stdout w @ [''Created icon16.png'', ''Created icon48.png'']\<rparr>)"
  using assms(1)
  by (simp add: main_def seq_def makedirs_def create_icon_saved [OF assms(2,5)]
      create_icon_saved [OF assms(3,6)] create_icon_write_fails [OF assms(4,7)] icon_path_inject)

lemma main_ok:
  assumes "mkdir_error e icons_dir = None"
    and "render e (PInt 16) = Inr i16" and "render e (PInt 48) = Inr i48"
    and "render e (PInt 128) = Inr i128"
    and "write_error e (icon_path ''icon16.png'') i16 = None"
    and "write_error e (icon_path ''icon48.png'') i48 = None"
    and "write_error e (icon_path ''icon128.png'') i128 = None"
  shows "main e w =
         (None, w\<lparr>dirs := insert icons_dir (dirs w),
                   files := (files w)(icon_path ''icon16.png'' \<mapsto> encode_png e i16,
                     icon_path ''icon48.png'' \<mapsto> encode_png e i48,
                     icon_path ''icon128.png'' \<mapsto> encode_png e i128),
                   stdout := stdout w @ [''Created icon16.png'', ''Created icon48.png'',
                     ''Created icon128.png'', ''All icons created successfully!'']\<rparr>)"
  using assms(1)
  by (simp add: main_def seq_def makedirs_def print_def create_icon_saved [OF assms(2,5)]
      create_icon_saved [OF assms(3,6)] create_icon_saved [OF assms(4,7)])

lemma main_success:
  assumes "fst (main e w) = None"
    and "render e (PInt 16) = Inr i16" and "render e (PInt 48) = Inr i48"
    and "render e (PInt 128) = Inr i128"
  shows "mkdir_error e icons_dir = None \<and>
         write_error e (icon_path ''icon16.png'') i16 = None \<and>
         write_error e (icon_path ''icon48.png'') i48 = None \<and>
         write_error e (icon_path ''icon128.png'') i128 = None"
proof -
  note r16 = assms(2) and r48 = assms(3) and r128 = assms(4)
  have m: "mkdir_error e icons_dir = None"
    using assms(1) main_mkdir_fails [of e _ w] by (cases "mkdir_error e icons_dir") auto
  have a: "write_error e (icon_path ''icon16.png'') i16 = None"
    using assms(1) main_first_write_fails [OF m r16, of _ w]
    by (cases "write_error e (icon_path ''icon16.png'') i16") auto
  have b: "write_error e (icon_path ''icon48.png'') i48 = None"
    using assms(1) main_second_write_fails [OF m r16 r48 a, of _ w]
    by (cases "write_error e (icon_path ''icon48.png'') i48") auto
  have c: "write_error e (icon_path ''icon128.png'') i128 = None"
    using assms(1) main_third_write_fails [OF m r16 r48 r128 a b, of _ w]
    by (cases "write_error e (icon_path ''icon128.png'') i128") auto
  show ?thesis using m a b c by simp
qed

text \<open>
  C5.  A call of \<open>create_icon\<close> whose write succeeds changes the file system at exactly one
  path, the fixed output directory joined with the file name, where it puts the encoded
  picture in place of whatever was there.  A run of the script in which the directory can
  be made and the three writes succeed leaves exactly the three files \<open>icon16.png\<close>,
  \<open>icon48.png\<close> and \<open>icon128.png\<close> written, holding pictures of 16, 48 and 128 pixels
  square, and touches no other file.
\<close>

theorem icon_files_written:
  "(\<forall>sz img filename w'. render e sz = Inr img \<longrightarrow> write_error e (icon_path filename) img = None \<longrightarrow>
      icon_path filename = ''/Users/maciejorlowski/lumos/extension/icons/'' @ filename \<and>
      fst (create_icon e sz filename w') = None \<and>
      files (snd (create_icon e sz filename w')) =
        (files w')(icon_path filename \<mapsto> encode_png e img)) \<and>
   (\<exists>i16 i48 i128.
      render e (PInt 16) = Inr i16 \<and> width i16 = 16 \<and> height i16 = 16 \<and>
      render e (PInt 48) = Inr i48 \<and> width i48 = 48 \<and> height i48 = 48 \<and>
      render e (PInt 128) = Inr i128 \<and> width i128 = 128 \<and> height i128 = 128 \<and>
      (mkdir_error e icons_dir = None \<and>
       write_error e (icon_path ''icon16.png'') i16 = None \<and>
       write_error e (icon_path ''icon48.png'') i48 = None \<and>
       write_error e (icon_path ''icon128.png'') i128 = None \<longrightarrow>
         fst (main e w) = None \<and>
         files (snd (main e w)) =
           (files w)(icon_path ''icon16.png'' \<mapsto> encode_png e i16,
             icon_path ''icon48.png'' \<mapsto> encode_png e i48,
             icon_path ''icon128.png'' \<mapsto> encode_png e i128)))"
proof -
  obtain i16 where r16: "render e (PInt 16) = Inr i16" "width i16 = 16" "height i16 = 16"
    using render_ok [of 16 e] by auto
  obtain i48 where r48: "render e (PInt 48) = Inr i48" "width i48 = 48" "height i48 = 48"
    using render_ok [of 48 e] by auto
  obtain i128 where r128: "render e (PInt 128) = Inr i128" "width i128 = 128" "height i128 = 128"
    using render_ok [of 128 e] by auto
  have one: "icon_path filename = ''/Users/maciejorlowski/lumos/extension/icons/'' @ filename \<and>
             fst (create_icon e sz filename w') = None \<and>
             files (snd (create_icon e sz filename w')) =
               (files w')(icon_path filename \<mapsto> encode_png e img)"
    if "render e sz = Inr img" "write_error e (icon_path filename) img = None" for sz img filename w'
    using create_icon_saved [OF that, of w'] by (simp add: icon_path_def icons_dir_def)
  have run: "mkdir_error e icons_dir = None \<and>
       write_error e (icon_path ''icon16.png'') i16 = None \<and>
       write_error e (icon_path ''icon48.png'') i48 = None \<and>
       write_error e (icon_path ''icon128.png'') i128 = None \<longrightarrow>
         fst (main e w) = None \<and>
         files (snd (main e w)) =
           (files w)(icon_path ''icon16.png'' \<mapsto> encode_png e i16,
             icon_path ''icon48.png'' \<mapsto> encode_png e i48,
             icon_path ''icon128.png'' \<mapsto> encode_png e i128)"
  proof
    assume h: "mkdir_error e icons_dir = None \<and>
       write_error e (icon_path ''icon16.png'') i16 = None \<and>
       write_error e (icon_path ''icon48.png'') i48 = None \<and>
       write_error e (icon_path ''icon128.png'') i128 = None"
    show "fst (main e w) = None \<and>
         files (snd (main e w)) =
           (files w)(icon_path ''icon16.png'' \<mapsto> encode_png e i16,
             icon_path ''icon48.png'' \<mapsto> encode_png e i48,
             icon_path ''icon128.png'' \<mapsto> encode_png e i128)"
      using main_ok [OF _ r16(1) r48(1) r128(1), of w] h by simp
  qed
  have all: "\<exists>i16 i48 i128.
      render e (PInt 16) = Inr i16 \<and> width i16 = 16 \<and> height i16 = 16 \<and>
      render e (PInt 48) = Inr i48 \<and> width i48 = 48 \<and> height i48 = 48 \<and>
      render e (PInt 128) = Inr i128 \<and> width i128 = 128 \<and> height i128 = 128 \<and>
      (mkdir_error e icons_dir = None \<and>
       write_error e (icon_path ''icon16.png'') i16 = None \<and>
       write_error e (icon_path ''icon48.png'') i48 = None \<and>
       write_error e (icon_path ''icon128.png'') i128 = None \<longrightarrow>
         fst (main e w) = None \<and>
         files (snd (main e w)) =
           (files w)(icon_path ''icon16.png'' \<mapsto> encode_png e i16,
             icon_path ''icon48.png'' \<mapsto> encode_png e i48,
             icon_path ''icon128.png'' \<mapsto> encode_png e i128))"
    by (rule exI [of _ i16], rule exI [of _ i48], rule exI [of _ i128])
      (intro conjI r16 r48 r128 run)
  show ?thesis using one all by blast
qed

theorem icon_files_written_witness:
  "mkdir_error sample_env icons_dir = None \<and>
   fst (main sample_env empty_world) = None \<and>
   dom (files (snd (main sample_env empty_world))) =
     {icon_path ''icon16.png'', icon_path ''icon48.png'', icon_path ''icon128.png''}"
proof -
  have h: "mkdir_error sample_env icons_dir = None"
    "write_error sample_env p img = None" for p img
    by (simp_all add: sample_env_def)
  from icon_files_written [of sample_env empty_world] h obtain i16 i48 i128 where
    "fst (main sample_env empty_world) = None"
    "files (snd (main sample_env empty_world)) =
       (files empty_world)(icon_path ''icon16.png'' \<mapsto> encode_png sample_env i16,
         icon_path ''icon48.png'' \<mapsto> encode_png sample_env i48,
         icon_path ''icon128.png'' \<mapsto> encode_png sample_env i128)"
    by blast
  then show ?thesis using h by (auto simp add: empty_world_def)
qed

text \<open>
  C6.  A failing write is not handled: the exception leaves \<open>create_icon\<close> and then the
  script.  If the first write fails nothing is reported and the other two files are not
  touched; if the second fails only the first icon was reported and the third file is not
  touched; if the third fails the first two were reported; in no case is the final
  completion line printed.
\<close>

theorem write_failure_aborts:
  assumes "mkdir_error e icons_dir = None"
    and "render e (PInt 16) = Inr i16" and "render e (PInt 48) = Inr i48"
    and "render e (PInt 128) = Inr i128"
  shows "(write_error e (icon_path ''icon16.png'') i16 = Some err \<longrightarrow>
            fst (create_icon e (PInt 16) ''icon16.png'' w) = Some err \<and>
            fst (main e w) = Some err \<and>
            stdout (snd (main e w)) = stdout w \<and>
            files (snd (main e w)) (icon_path ''icon48.png'') = files w (icon_path ''icon48.png'') \<and>
            files (snd (main e w)) (icon_path ''icon128.png'') = files w (icon_path ''icon128.png'')) \<and>
         (write_error e (icon_path ''icon16.png'') i16 = None \<and>
          write_error e (icon_path ''icon48.png'') i48 = Some err \<longrightarrow>
            fst (create_icon e (PInt 48) ''icon48.png'' w) = Some err \<and>
            fst (main e w) = Some err \<and>
            stdout (snd (main e w)) = stdout w @ [''Created icon16.png''] \<and>
            files (snd (main e w)) (icon_path ''icon128.png'') = files w (icon_path ''icon128.png'')) \<and>
         (write_error e (icon_path ''icon16.png'') i16 = None \<and>
          write_error e (icon_path ''icon48.png'') i48 = None \<and>
          write_error e (icon_path ''icon128.png'') i128 = Some err \<longrightarrow>
            fst (create_icon e (PInt 128) ''icon128.png'' w) = Some err \<and>
            fst (main e w) = Some err \<and>
            stdout (snd (main e w)) = stdout w @ [''Created icon16.png'', ''Created icon48.png''])"
proof -
  note r16 = assms(2) and r48 = assms(3) and r128 = assms(4)
  have a: "fst (create_icon e (PInt 16) ''icon16.png'' w) = Some err \<and>
           fst (main e w) = Some err \<and>
           stdout (snd (main e w)) = stdout w \<and>
           files (snd (main e w)) (icon_path ''icon48.png'') = files w (icon_path ''icon48.png'') \<and>
           files (snd (main e w)) (icon_path ''icon128.png'') = files w (icon_path ''icon128.png'')"
    if "write_error e (icon_path ''icon16.png'') i16 = Some err"
    using main_first_write_fails [OF assms(1) r16 that, of w] create_icon_outcome [OF r16, of "''icon16.png''" w] that
    by (simp add: icon_path_inject)
  have b: "fst (create_icon e (PInt 48) ''icon48.png'' w) = Some err \<and>
           fst (main e w) = Some err \<and>
           stdout (snd (main e w)) = stdout w @ [''Created icon16.png''] \<and>
           files (snd (main e w)) (icon_path ''icon128.png'') = files w (icon_path ''icon128.png'')"
    if "write_error e (icon_path ''icon16.png'') i16 = None"
      "write_error e (icon_path ''icon48.png'') i48 = Some err"
    using main_second_write_fails [OF assms(1) r16 r48 that, of w]
      create_icon_outcome [OF r48, of "''icon48.png''" w] that
    by (simp add: icon_path_inject)
  have c: "fst (create_icon e (PInt 128) ''icon128.png'' w) = Some err \<and>
           fst (main e w) = Some err \<and>
           stdout (snd (main e w)) = stdout w @ [''Created icon16.png'', ''Created icon48.png'']"
    if "write_error e (icon_path ''icon16.png'') i16 = None"
      "write_error e (icon_path ''icon48.png'') i48 = None"
      "write_error e (icon_path ''icon128.png'') i128 = Some err"
    using main_third_write_fails [OF assms(1) r16 r48 r128 that, of w]
      create_icon_outcome [OF r128, of "''icon128.png''" w] that
    by simp
  show ?thesis using a b c by blast
qed

theorem write_failure_aborts_witness:
  "mkdir_error (failing_env ''icon48.png'') icons_dir = None \<and>
   (\<exists>i16 i48.
      render (failing_env ''icon48.png'') (PInt 16) = Inr i16 \<and>
      render (failing_env ''icon48.png'') (PInt 48) = Inr i48 \<and>
      write_error (failing_env ''icon48.png'') (icon_path ''icon16.png'') i16 = None \<and>
      write_error (failing_env ''icon48.png'') (icon_path ''icon48.png'') i48 = Some OSError) \<and>
   fst (main (failing_env ''icon48.png'') empty_world) = Some OSError \<and>
   stdout (snd (main (failing_env ''icon48.png'') empty_world)) = [''Created icon16.png''] \<and>
   files (snd (main (failing_env ''icon48.png'') empty_world)) (icon_path ''icon128.png'') = None"
proof -
  obtain i16 where r16: "render (failing_env ''icon48.png'') (PInt 16) = Inr i16"
    using render_ok [of 16] by auto
  obtain i48 where r48: "render (failing_env ''icon48.png'') (PInt 48) = Inr i48"
    using render_ok [of 48] by auto
  obtain i128 where r128: "render (failing_env ''icon48.png'') (PInt 128) = Inr i128"
    using render_ok [of 128] by auto
  have h: "mkdir_error (failing_env ''icon48.png'') icons_dir = None"
    "write_error (failing_env ''icon48.png'') (icon_path ''icon16.png'') i16 = None"
    "write_error (failing_env ''icon48.png'') (icon_path ''icon48.png'') i48 = Some OSError"
    by (simp_all add: failing_env_def sample_env_def icon_path_inject)
  have "fst (main (failing_env ''icon48.png'') empty_world) = Some OSError \<and>
        stdout (snd (main (failing_env ''icon48.png'') empty_world)) = [''Created icon16.png''] \<and>
        files (snd (main (failing_env ''icon48.png'') empty_world)) (icon_path ''icon128.png'') = None"
    using write_failure_aborts [OF h(1) r16 r48 r128, of OSError empty_world] h
    by (simp add: empty_world_def)
  then show ?thesis using h r16 r48 by blast
qed

text \<open>
  C7.  What a successful run writes depends on the environment alone (which font loads,
  how pictures are encoded), not on what was there before: a second run on the files left
  by the first succeeds as well and leaves the very same file contents, and a run from
  any other starting state writes the same bytes to each of the three files.
\<close>

theorem runs_are_repeatable:
  assumes "fst (main e w) = None"
  shows "fst (main e (snd (main e w))) = None \<and>
         files (snd (main e (snd (main e w)))) = files (snd (main e w)) \<and>
         (\<forall>w'. fst (main e w') = None \<and>
            files (snd (main e w')) (icon_path ''icon16.png'') =
              files (snd (main e w)) (icon_path ''icon16.png'') \<and>
            files (snd (main e w')) (icon_path ''icon48.png'') =
              files (snd (main e w)) (icon_path ''icon48.png'') \<and>
            files (snd (main e w')) (icon_path ''icon128.png'') =
              files (snd (main e w)) (icon_path ''icon128.png''))"
proof -
  obtain i16 where r16: "render e (PInt 16) = Inr i16" using render_ok [of 16 e] by auto
  obtain i48 where r48: "render e (PInt 48) = Inr i48" using render_ok [of 48 e] by auto
  obtain i128 where r128: "render e (PInt 128) = Inr i128" using render_ok [of 128 e] by auto
  note s = main_success [OF assms r16 r48 r128]
  note m = main_ok [OF conjunct1 [OF s] r16 r48 r128
      conjunct1 [OF conjunct2 [OF s]] conjunct1 [OF conjunct2 [OF conjunct2 [OF s]]]
      conjunct2 [OF conjunct2 [OF conjunct2 [OF s]]]]
  have again: "fst (main e w') = None \<and>
            files (snd (main e w')) (icon_path ''icon16.png'') =
              files (snd (main e w)) (icon_path ''icon16.png'') \<and>
            files (snd (main e w')) (icon_path ''icon48.png'') =
              files (snd (main e w)) (icon_path ''icon48.png'') \<and>
            files (snd (main e w')) (icon_path ''icon128.png'') =
              files (snd (main e w)) (icon_path ''icon128.png'')" for w'
    by (simp add: m [of w'] m [of w] icon_path_inject)
  have twice: "files (snd (main e (snd (main e w)))) = files (snd (main e w))"
    by (simp add: m)
  show ?thesis using again twice by blast
qed

theorem runs_are_repeatable_witness:
  "fst (main sample_env empty_world) = None \<and>
   fst (main sample_env (snd (main sample_env empty_world))) = None \<and>
   files (snd (main sample_env (snd (main sample_env empty_world)))) =
     files (snd (main sample_env empty_world))"
proof -
  obtain i16 where r16: "render sample_env (PInt 16) = Inr i16" using render_ok [of 16 sample_env] by auto
  obtain i48 where r48: "render sample_env (PInt 48) = Inr i48" using render_ok [of 48 sample_env] by auto
  obtain i128 where r128: "render sample_env (PInt 128) = Inr i128" using render_ok [of 128 sample_env] by auto
  have h: "mkdir_error sample_env icons_dir = None"
    "write_error sample_env p img = None" for p img
    by (simp_all add: sample_env_def)
  have ok: "fst (main sample_env empty_world) = None"
    using main_ok [OF h(1) r16 r48 r128 h(2) h(2) h(2), of empty_world] by simp
  show ?thesis using runs_are_repeatable [OF ok] ok by simp
qed

end
